theory Spec2Isabelle
  imports Complex_Main "HOL-Library.Word"
begin

unbundle bit_operations_syntax

section \<open>Python values and exceptions\<close>

text \<open>
  Python integers are unbounded and are modelled as \<open>int\<close>; Python floats are modelled as
  \<open>real\<close> (rounding of IEEE arithmetic is not part of the model; the decibel values
  \<open>-30, -20, -10, 0\<close> that the fade-in moves through are exact in both).  Every exception
  the modelled code can raise is a value of \<open>py_error\<close>.
\<close>

datatype py_error = ValueError | IndexError | KeyError | ZeroDivisionError | AttributeError

type_synonym byte = "8 word"

section \<open>The fade-in effect (clips.py, class FadeIn)\<close>

record FadeIn =
  gain :: real
  increment :: real

text \<open>\<open>FadeIn.__init__\<close>\<close>

definition FadeIn_init :: FadeIn where
  "FadeIn_init = \<lparr>gain = - 30, increment = 10\<rparr>"

text \<open>\<open>FadeIn.step\<close>: add the increment, then clamp at 0 dB.\<close>

definition step :: "FadeIn \<Rightarrow> FadeIn" where
  "step f =
     (let g = gain f + increment f
      in if g > 0 then f\<lparr>gain := 0\<rparr> else f\<lparr>gain := g\<rparr>)"

text \<open>\<open>FadeIn.is_done\<close>\<close>

definition is_done :: "FadeIn \<Rightarrow> bool" where
  "is_done f = (if gain f \<ge> 0 then True else False)"

text \<open>
  A tensor is the list of its rows (one row per channel).  \<open>size_last\<close> is
  \<open>torchdata.size()[-1]\<close>, the length of a row.
\<close>

type_synonym tensor = "real list list"

definition size_last :: "tensor \<Rightarrow> nat" where
  "size_last t = (case t of [] \<Rightarrow> 0 | r # _ \<Rightarrow> length r)"

text \<open>
  \<open>torch.linspace(start, end, steps)\<close>: \<open>steps\<close> evenly spaced values from \<open>start\<close> to
  \<open>end\<close>.  With one step the library returns the start value alone, with none the empty
  tensor.
\<close>

definition linspace :: "real \<Rightarrow> real \<Rightarrow> nat \<Rightarrow> real list" where
  "linspace a b n =
     (if n = 1 then [a]
      else map (\<lambda>i. a + real i * ((b - a) / real (n - 1))) [0..<n])"

text \<open>The locals \<open>start_ratio\<close>, \<open>end_gain\<close>, \<open>end_ratio\<close> and \<open>fade\<close> of \<open>FadeIn.process\<close>.\<close>

definition start_ratio :: "FadeIn \<Rightarrow> real" where
  "start_ratio f = 10 powr (gain f / 20)"

definition end_gain :: "FadeIn \<Rightarrow> real" where
  "end_gain f = (let g = gain f + increment f in if g > 0 then 0 else g)"

definition end_ratio :: "FadeIn \<Rightarrow> real" where
  "end_ratio f = 10 powr (end_gain f / 20)"

definition fade :: "FadeIn \<Rightarrow> nat \<Rightarrow> real list" where
  "fade f n = linspace (start_ratio f) (end_ratio f) n"

text \<open>
  \<open>FadeIn.process\<close>: every row is multiplied elementwise by the ramp, then \<open>step\<close> runs.
  The result is the processed tensor together with the effect's new state.
\<close>

definition process :: "FadeIn \<Rightarrow> tensor \<Rightarrow> tensor \<times> FadeIn" where
  "process f torchdata =
     (let ramp = fade f (size_last torchdata);
          proc = map (\<lambda>row. map2 (*) row ramp) torchdata
      in (proc, step f))"

section \<open>Audio formats and in-memory sources\<close>

text \<open>
  pyglet's \<open>AudioFormat\<close> carries the channel count, the sample size in bits and the sample
  rate.
\<close>

record AudioFormat =
  channels :: int
  sample_size :: int
  sample_rate :: int

text \<open>
  Modelled from the spec: the derived attributes \<open>bytes_per_sample\<close> and
  \<open>bytes_per_second\<close> of pyglet's \<open>AudioFormat\<close>, a library class that the repository
  reads but does not define (\<open>bytes_per_sample = channels \<times> bits/8\<close>,
  \<open>bytes_per_second = bytes_per_sample \<times> sample_rate\<close>).
\<close>

definition bytes_per_sample :: "AudioFormat \<Rightarrow> int" where
  "bytes_per_sample fmt = channels fmt * (sample_size fmt div 8)"

definition bytes_per_second :: "AudioFormat \<Rightarrow> int" where
  "bytes_per_second fmt = bytes_per_sample fmt * sample_rate fmt"

text \<open>
  A \<open>MemorySource\<close> object.  \<open>ident\<close> is the identity of the Python object (two objects
  are the same object iff their identities agree); \<open>data\<close> is \<open>_data\<close>, \<open>file_pos\<close> the
  position of the \<open>BytesIO\<close> in \<open>_file\<close>.
\<close>

record MemorySource =
  ident :: nat
  data :: "byte list"
  file_pos :: int
  max_offset :: nat
  audio_format :: AudioFormat
  duration :: real

text \<open>
  \<open>MemorySource.__init__\<close>; \<open>oid\<close> is the identity of the object being constructed.  The
  division for \<open>_duration\<close> raises when \<open>bytes_per_second\<close> is zero.
\<close>

definition MemorySource_init :: "nat \<Rightarrow> byte list \<Rightarrow> AudioFormat \<Rightarrow> py_error + MemorySource" where
  "MemorySource_init oid d fmt =
     (if bytes_per_second fmt = 0 then Inl ZeroDivisionError
      else Inr \<lparr>ident = oid, data = d, file_pos = 0, max_offset = length d,
                audio_format = fmt,
                duration = real (length d) / real_of_int (bytes_per_second fmt)\<rparr>)"

text \<open>Python's \<open>int(x)\<close> on a float: truncation towards zero.\<close>

definition py_int :: "real \<Rightarrow> int" where
  "py_int x = (if x \<ge> 0 then \<lfloor>x\<rfloor> else \<lceil>x\<rceil>)"



section \<open>Clips (clips.py, class Clip)\<close>

record Clip =
  name :: string
  element :: string
  bars :: "MemorySource list"
  bpm :: real
  key :: string
  bar :: int
  magnitude :: real
  effects :: "FadeIn list"
  state :: string
  current_bar :: "MemorySource option"
  clip_audio_format :: "AudioFormat option"

text \<open>
  \<open>Clip.__init__\<close>.  The attributes \<open>current_bar\<close> and \<open>audio_format\<close> do not exist yet
  (\<open>None\<close>); \<open>next_bar\<close> and \<open>to_torch\<close> create them.
\<close>

definition Clip_init :: "string \<Rightarrow> string \<Rightarrow> MemorySource list \<Rightarrow> real \<Rightarrow> string \<Rightarrow> Clip" where
  "Clip_init nm el bs tempo ky =
     \<lparr>name = nm, element = el, bars = bs, bpm = tempo, key = ky, bar = 0,
      magnitude = 1, effects = [FadeIn_init], state = ''cued'',
      current_bar = None, clip_audio_format = None\<rparr>"

subsection \<open>Bytes to samples and back\<close>

text \<open>A 16-bit sample from its two bytes, low byte first (the byte order of the host).\<close>

definition le16 :: "byte \<Rightarrow> byte \<Rightarrow> 16 word" where
  "le16 lo hi = ucast lo OR push_bit 8 (ucast hi)"

fun int16s :: "byte list \<Rightarrow> 16 word list" where
  "int16s (lo # hi # rest) = le16 lo hi # int16s rest"
| "int16s _ = []"

text \<open>\<open>np.frombuffer(d, dtype=np.int16)\<close>: the length must be a multiple of the item size.\<close>

definition frombuffer_int16 :: "byte list \<Rightarrow> py_error + 16 word list" where
  "frombuffer_int16 d = (if length d mod 2 \<noteq> 0 then Inl ValueError else Inr (int16s d))"

text \<open>The slice \<open>xs[::2]\<close>; \<open>xs[1::2]\<close> is \<open>slice2 (drop 1 xs)\<close>.\<close>

fun slice2 :: "'a list \<Rightarrow> 'a list" where
  "slice2 (x # y # xs) = x # slice2 xs"
| "slice2 [x] = [x]"
| "slice2 [] = []"

text \<open>\<open>np.stack((a, b))\<close>: both arrays must have the same shape.\<close>

definition stack2 :: "'a list \<Rightarrow> 'a list \<Rightarrow> py_error + 'a list list" where
  "stack2 a b = (if length a \<noteq> length b then Inl ValueError else Inr [a, b])"

text \<open>
  \<open>Clip.to_torch\<close>.  The assignment to \<open>self.audio_format\<close> comes first and survives an
  exception raised later.  The conversion of a 16-bit integer to \<open>float32\<close> is exact.
\<close>

definition to_torch :: "Clip \<Rightarrow> MemorySource \<Rightarrow> (py_error + tensor) \<times> Clip" where
  "to_torch c mem_source =
     (let c' = c\<lparr>clip_audio_format := Some (audio_format mem_source)\<rparr>
      in case frombuffer_int16 (data mem_source) of
           Inl e \<Rightarrow> (Inl e, c')
         | Inr raw_ints \<Rightarrow>
             (let a = slice2 raw_ints;
                  b = slice2 (drop 1 raw_ints)
              in case stack2 a b of
                   Inl e \<Rightarrow> (Inl e, c')
                 | Inr deinterleaved \<Rightarrow>
                     (Inr (map (map (\<lambda>w. real_of_int (sint w))) deinterleaved), c')))"

text \<open>
  \<open>stream[0::2] = ch0; stream[1::2] = ch1\<close> on a fresh array of \<open>ch0.size + ch1.size\<close>
  elements.
\<close>

fun interleave :: "'a list \<Rightarrow> 'a list \<Rightarrow> 'a list" where
  "interleave (x # xs) (y # ys) = x # y # interleave xs ys"
| "interleave _ _ = []"

text \<open>
  \<open>astype(np.int16)\<close> truncates towards zero; a value outside the 16-bit range is
  modelled as wrapping.
\<close>

definition astype_int16 :: "real \<Rightarrow> 16 word" where
  "astype_int16 x = word_of_int (py_int x)"

text \<open>\<open>tobytes()\<close> of a 16-bit array: two bytes per sample, low byte first.\<close>

definition tobytes :: "16 word list \<Rightarrow> byte list" where
  "tobytes ws = concat (map (\<lambda>w. [ucast w, ucast (drop_bit 8 w)]) ws)"

text \<open>
  \<open>Clip.from_torch\<close>; \<open>oid\<close> is the identity of the \<open>MemorySource\<close> it constructs.  A
  tensor is rectangular, so rows of different lengths do not occur; the model answers
  them with \<open>ValueError\<close>.
\<close>

definition from_torch :: "Clip \<Rightarrow> nat \<Rightarrow> tensor \<Rightarrow> py_error + MemorySource" where
  "from_torch c oid torch_audio =
     (case torch_audio of
        ch0 # ch1 # _ \<Rightarrow>
          (if length ch0 \<noteq> length ch1 then Inl ValueError
           else
             (let stream = interleave ch0 ch1;
                  int_stream = map astype_int16 stream
              in case clip_audio_format c of
                   None \<Rightarrow> Inl AttributeError
                 | Some fmt \<Rightarrow> MemorySource_init oid (tobytes int_stream) fmt))
      | _ \<Rightarrow> Inl IndexError)"

subsection \<open>The next bar\<close>

text \<open>Python list indexing: a negative index counts from the end.\<close>

definition py_index :: "'a list \<Rightarrow> int \<Rightarrow> py_error + 'a" where
  "py_index xs i =
     (let n = int (length xs);
          j = (if i < 0 then n + i else i)
      in if 0 \<le> j \<and> j < n then Inr (xs ! nat j) else Inl IndexError)"

text \<open>
  The effect step of \<open>next_bar\<close>: with a non-empty chain the head processes the tensor
  (which also advances the head in place) and is dropped from the list when it reports
  completion.
\<close>

definition apply_effects :: "Clip \<Rightarrow> tensor \<Rightarrow> tensor \<times> Clip" where
  "apply_effects c torchdata =
     (case effects c of
        [] \<Rightarrow> (torchdata, c)
      | e # es \<Rightarrow>
          (let (proc, e') = process e torchdata
           in if is_done e' then (proc, c\<lparr>effects := es\<rparr>)
              else (proc, c\<lparr>effects := e' # es\<rparr>)))"

text \<open>
  \<open>Clip.next_bar\<close>.  The argument \<open>fresh\<close> is the next unused object identity; the
  result is the returned buffer or the exception raised, the clip as the call left it
  (an exception does not undo the assignments made before it), and the next unused
  identity.
\<close>

definition next_bar :: "Clip \<Rightarrow> nat \<Rightarrow> (py_error + MemorySource) \<times> Clip \<times> nat" where
  "next_bar c fresh =
     (case py_index (bars c) (bar c) of
        Inl e \<Rightarrow> (Inl e, c, fresh)
      | Inr src \<Rightarrow>
          (case to_torch c src of
             (Inl e, c1) \<Rightarrow> (Inl e, c1, fresh)
           | (Inr torchdata, c1) \<Rightarrow>
               (let (torchdata', c2) = apply_effects c1 torchdata
                in case from_torch c2 fresh torchdata' of
                     Inl e \<Rightarrow> (Inl e, c2, fresh)
                   | Inr ms \<Rightarrow>
                       (let c3 = c2\<lparr>current_bar := Some ms\<rparr>
                        in if length (bars c3) = 0 then (Inl ZeroDivisionError, c3, Suc fresh)
                           else (Inr ms,
                                 c3\<lparr>bar := (bar c3 + 1) mod int (length (bars c3))\<rparr>,
                                 Suc fresh)))))"

section \<open>Slicing a loop into bars (mixaqubes.py, PlayerWindow.cache_active_clip)\<close>














section \<open>Sequences of calls\<close>

text \<open>The effect's state after \<open>process\<close> has been called on each tensor of a list in turn.\<close>

definition process_all :: "FadeIn \<Rightarrow> tensor list \<Rightarrow> FadeIn" where
  "process_all f ts = fold (\<lambda>t g. snd (process g t)) ts f"

section \<open>Example values\<close>

text \<open>CD-quality stereo, and the same with one channel.\<close>

definition stereo16 :: AudioFormat where
  "stereo16 = \<lparr>channels = 2, sample_size = 16, sample_rate = 44100\<rparr>"

definition mono16 :: AudioFormat where
  "mono16 = \<lparr>channels = 1, sample_size = 16, sample_rate = 44100\<rparr>"

text \<open>A source object over the given bytes, as the constructor leaves it.\<close>

definition source_of :: "nat \<Rightarrow> byte list \<Rightarrow> AudioFormat \<Rightarrow> MemorySource" where
  "source_of oid d fmt =
     \<lparr>ident = oid, data = d, file_pos = 0, max_offset = length d, audio_format = fmt,
      duration = real (length d) / real_of_int (bytes_per_second fmt)\<rparr>"

text \<open>Two one-frame stereo bars and a new clip over them.\<close>

definition bar_a :: MemorySource where
  "bar_a = source_of 0 [1, 2, 3, 4] stereo16"

definition bar_b :: MemorySource where
  "bar_b = source_of 1 [5, 6, 7, 8] stereo16"

definition two_bar_clip :: Clip where
  "two_bar_clip = Clip_init ''song'' ''intro'' [bar_a, bar_b] 128 ''8A''"



section \<open>Properties of the fade-in\<close>

lemma snd_process: "snd (process f t) = step f"
  by (simp add: process_def Let_def)

lemma step_init: "step FadeIn_init = \<lparr>gain = - 20, increment = 10\<rparr>"
  by (simp add: step_def FadeIn_init_def)

lemma step_m20: "step \<lparr>gain = - 20, increment = 10\<rparr> = \<lparr>gain = - 10, increment = 10\<rparr>"
  by (simp add: step_def)

lemma step_m10: "step \<lparr>gain = - 10, increment = 10\<rparr> = \<lparr>gain = 0, increment = 10\<rparr>"
  by (simp add: step_def)

lemma process_all_Nil: "process_all f [] = f"
  by (simp add: process_all_def)

lemma process_all_Cons: "process_all f (t # ts) = process_all (step f) ts"
  by (simp add: process_all_def snd_process)

lemma process_all_snoc: "process_all f (ts @ [t]) = step (process_all f ts)"
  by (simp add: process_all_def snd_process)

lemma linspace_length: "length (linspace a b n) = n"
  by (simp add: linspace_def)

lemma linspace_nth: "i < n \<Longrightarrow> linspace a b n ! i = a + real i * ((b - a) / real (n - 1))"
  by (auto simp add: linspace_def)

lemma linspace_last: "2 \<le> n \<Longrightarrow> last (linspace a b n) = b"
  by (simp add: linspace_def last_map)

lemma linspace_hd: "0 < n \<Longrightarrow> hd (linspace a b n) = a"
  by (simp add: linspace_def hd_map)

lemma linspace_term_bounds:
  assumes "a \<le> b" "i < n"
  shows "0 \<le> real i * ((b - a) / real (n - 1))"
    and "real i * ((b - a) / real (n - 1)) \<le> b - a"
proof -
  show "0 \<le> real i * ((b - a) / real (n - 1))" using assms by simp
  show "real i * ((b - a) / real (n - 1)) \<le> b - a"
  proof (cases "n = 1")
    case True
    then show ?thesis using assms by simp
  next
    case False
    then have pos: "0 < real (n - 1)" using assms by simp
    have "real i \<le> real (n - 1)" using assms by simp
    then have "real i * (b - a) \<le> real (n - 1) * (b - a)"
      using assms by (intro mult_right_mono) simp_all
    then show ?thesis using pos by (simp add: field_simps)
  qed
qed

lemma linspace_bounds:
  assumes "a \<le> b" "x \<in> set (linspace a b n)"
  shows "a \<le> x \<and> x \<le> b"
proof -
  from assms(2) obtain i where i: "i < n" "x = linspace a b n ! i"
    by (auto simp: in_set_conv_nth linspace_length)
  then have "x = a + real i * ((b - a) / real (n - 1))" by (simp add: linspace_nth)
  with linspace_term_bounds [OF assms(1) i(1)] show ?thesis by simp
qed

lemma linspace_sorted:
  assumes "a \<le> b"
  shows "sorted (linspace a b n)"
proof -
  have "linspace a b n ! i \<le> linspace a b n ! j" if "i \<le> j" "j < n" for i j
  proof -
    have "0 \<le> (b - a) / real (n - 1)" using assms by simp
    then have "real i * ((b - a) / real (n - 1)) \<le> real j * ((b - a) / real (n - 1))"
      using that by (intro mult_right_mono) simp_all
    then show ?thesis using that by (simp add: linspace_nth)
  qed
  then show ?thesis by (simp add: sorted_iff_nth_mono linspace_length)
qed

text \<open>
  The invariant of the effect's state along any run from the initial state: the gain is
  at most 0 dB and the increment is the constant 10.
\<close>

lemma step_invariant:
  "gain f \<le> 0 \<and> increment f = 10 \<Longrightarrow> gain (step f) \<le> 0 \<and> increment (step f) = 10"
  by (simp add: step_def Let_def)

lemma process_all_invariant:
  "gain f \<le> 0 \<and> increment f = 10 \<Longrightarrow>
   gain (process_all f ts) \<le> 0 \<and> increment (process_all f ts) = 10"
proof (induction ts arbitrary: f)
  case Nil
  then show ?case by (simp add: process_all_Nil)
next
  case (Cons t ts)
  from Cons.prems have "gain (step f) \<le> 0 \<and> increment (step f) = 10"
    by (rule step_invariant)
  then show ?case by (simp add: process_all_Cons Cons.IH)
qed

lemma init_invariant:
  "gain (process_all FadeIn_init ts) \<le> 0 \<and> increment (process_all FadeIn_init ts) = 10"
  by (rule process_all_invariant) (simp add: FadeIn_init_def)

lemma gain_step: "gain (step f) = end_gain f"
  by (simp add: step_def end_gain_def Let_def)

lemma start_le_end: "0 \<le> increment f \<Longrightarrow> gain f \<le> 0 \<Longrightarrow> start_ratio f \<le> end_ratio f"
  by (simp add: start_ratio_def end_ratio_def end_gain_def Let_def)

lemma end_le_one: "end_ratio f \<le> 1"
proof -
  have "end_gain f \<le> 0" by (simp add: end_gain_def Let_def)
  then have "10 powr (end_gain f / 20) \<le> 10 powr 0"
    by (intro powr_mono) simp_all
  then show ?thesis by (simp add: end_ratio_def)
qed

lemma start_ratio_mono_run:
  "start_ratio (process_all FadeIn_init ts) \<le> start_ratio (process_all FadeIn_init (ts @ us))"
proof (induction us rule: rev_induct)
  case Nil
  then show ?case by simp
next
  case (snoc u us)
  let ?g = "process_all FadeIn_init (ts @ us)"
  have inv: "gain ?g \<le> 0 \<and> increment ?g = 10" by (rule init_invariant)
  then have "start_ratio ?g \<le> end_ratio ?g" by (simp add: start_le_end)
  also have "end_ratio ?g = start_ratio (step ?g)"
    by (simp add: start_ratio_def end_ratio_def gain_step)
  also have "step ?g = process_all FadeIn_init (ts @ us @ [u])"
    using process_all_snoc [of FadeIn_init "ts @ us" u] by simp
  finally show ?case using snoc.IH by simp
qed

section \<open>The claims about the fade-in\<close>

text \<open>
  C1 (as amended).  \<open>process\<close> leaves the effect in the state \<open>step\<close> gives, so it
  steps exactly once per call.  From the initial state the gain is \<open>-20\<close> after the first
  call and \<open>-10\<close> after the second, with \<open>is_done\<close> false both times; after the third call
  the gain is \<open>0\<close> and \<open>is_done\<close> is true.  The ramp the third call builds ends in exactly
  \<open>1\<close> when the bar has at least two samples per channel.
\<close>

theorem FadeIn_done_after_three_calls:
  "snd (process f t) = step f
   \<and> gain (process_all FadeIn_init [t1]) = - 20
   \<and> \<not> is_done (process_all FadeIn_init [t1])
   \<and> gain (process_all FadeIn_init [t1, t2]) = - 10
   \<and> \<not> is_done (process_all FadeIn_init [t1, t2])
   \<and> gain (process_all FadeIn_init [t1, t2, t3]) = 0
   \<and> is_done (process_all FadeIn_init [t1, t2, t3])
   \<and> (2 \<le> size_last t3 \<longrightarrow>
        last (fade (process_all FadeIn_init [t1, t2]) (size_last t3)) = 1)"
  by (simp add: snd_process process_all_Cons process_all_Nil step_init step_m20 step_m10
        is_done_def fade_def linspace_last end_ratio_def end_gain_def)

text \<open>A bar of two samples per channel: the third ramp ends in \<open>1\<close>.\<close>

theorem FadeIn_done_after_three_calls_witness:
  "2 \<le> size_last [[1, 2], [3, 4]]
   \<and> last (fade (process_all FadeIn_init [[[1, 2], [3, 4]], [[1, 2], [3, 4]]])
        (size_last [[1, 2], [3, 4]])) = 1
   \<and> is_done (process_all FadeIn_init [[[1, 2], [3, 4]], [[1, 2], [3, 4]], [[1, 2], [3, 4]]])"
  using FadeIn_done_after_three_calls
    [of FadeIn_init "[[1, 2], [3, 4]]" "[[1, 2], [3, 4]]" "[[1, 2], [3, 4]]" "[[1, 2], [3, 4]]"]
  by (simp add: size_last_def)

text \<open>
  C1 as stated fails for a bar of one sample per channel: the ramp of the third call is
  the single value \<open>start_ratio = 10 powr (-1/2)\<close>, so its final sample is not \<open>1\<close>.
\<close>

theorem FadeIn_third_ramp_counterexample:
  "last (fade (process_all FadeIn_init [[[5], [7]], [[5], [7]]]) (size_last [[5], [7]])) \<noteq> 1"
  by (simp add: process_all_Cons process_all_Nil step_init step_m20 fade_def linspace_def
        size_last_def start_ratio_def)

text \<open>
  C7.  Along any sequence of \<open>process\<close> calls from the initial state: the gain stays at
  most 0 dB; the ratio a call starts from is at most the ratio it ends at, which is at
  most \<open>1\<close>; the next call starts from the ratio this call ended at; the start ratio never
  decreases as more calls are made; every sample of the ramp lies between the start and
  the end ratio, the ramp is non-decreasing, begins with the start ratio and, from two
  samples on, ends with the end ratio.
\<close>

theorem FadeIn_ratio_monotone:
  "gain (process_all FadeIn_init ts) \<le> 0
   \<and> start_ratio (process_all FadeIn_init ts) \<le> end_ratio (process_all FadeIn_init ts)
   \<and> end_ratio (process_all FadeIn_init ts) \<le> 1
   \<and> start_ratio (snd (process (process_all FadeIn_init ts) t))
       = end_ratio (process_all FadeIn_init ts)
   \<and> start_ratio (process_all FadeIn_init ts)
       \<le> start_ratio (process_all FadeIn_init (ts @ us))
   \<and> (\<forall>x \<in> set (fade (process_all FadeIn_init ts) n).
         start_ratio (process_all FadeIn_init ts) \<le> x
         \<and> x \<le> end_ratio (process_all FadeIn_init ts) \<and> x \<le> 1)
   \<and> sorted (fade (process_all FadeIn_init ts) n)
   \<and> (0 < n \<longrightarrow> hd (fade (process_all FadeIn_init ts) n)
         = start_ratio (process_all FadeIn_init ts))
   \<and> (2 \<le> n \<longrightarrow> last (fade (process_all FadeIn_init ts) n)
         = end_ratio (process_all FadeIn_init ts))"
proof -
  let ?f = "process_all FadeIn_init ts"
  have inv: "gain ?f \<le> 0 \<and> increment ?f = 10" by (rule init_invariant)
  then have le: "start_ratio ?f \<le> end_ratio ?f" by (simp add: start_le_end)
  have one: "end_ratio ?f \<le> 1" by (rule end_le_one)
  have nxt: "start_ratio (snd (process ?f t)) = end_ratio ?f"
    by (simp add: snd_process start_ratio_def end_ratio_def gain_step)
  have mono: "start_ratio ?f \<le> start_ratio (process_all FadeIn_init (ts @ us))"
    by (rule start_ratio_mono_run)
  have bnd: "\<forall>x \<in> set (fade ?f n). start_ratio ?f \<le> x \<and> x \<le> end_ratio ?f \<and> x \<le> 1"
  proof
    fix x assume "x \<in> set (fade ?f n)"
    then have "start_ratio ?f \<le> x \<and> x \<le> end_ratio ?f"
      unfolding fade_def by (rule linspace_bounds [OF le])
    with one show "start_ratio ?f \<le> x \<and> x \<le> end_ratio ?f \<and> x \<le> 1" by simp
  qed
  have srt: "sorted (fade ?f n)" unfolding fade_def by (rule linspace_sorted [OF le])
  have h: "0 < n \<longrightarrow> hd (fade ?f n) = start_ratio ?f" by (simp add: fade_def linspace_hd)
  have l: "2 \<le> n \<longrightarrow> last (fade ?f n) = end_ratio ?f" by (simp add: fade_def linspace_last)
  from inv le one nxt mono bnd srt h l show ?thesis by blast
qed

text \<open>After one call, on a ramp of three samples: the middle sample is within the bounds.\<close>

theorem FadeIn_ratio_monotone_witness:
  "fade (process_all FadeIn_init [[[1, 2, 3], [4, 5, 6]]]) 3 ! 1
     \<in> set (fade (process_all FadeIn_init [[[1, 2, 3], [4, 5, 6]]]) 3)
   \<and> start_ratio (process_all FadeIn_init [[[1, 2, 3], [4, 5, 6]]])
       \<le> fade (process_all FadeIn_init [[[1, 2, 3], [4, 5, 6]]]) 3 ! 1
   \<and> fade (process_all FadeIn_init [[[1, 2, 3], [4, 5, 6]]]) 3 ! 1 \<le> 1
   \<and> (0::nat) < 3 \<and> (2::nat) \<le> 3
   \<and> hd (fade (process_all FadeIn_init [[[1, 2, 3], [4, 5, 6]]]) 3)
       = start_ratio (process_all FadeIn_init [[[1, 2, 3], [4, 5, 6]]])
   \<and> last (fade (process_all FadeIn_init [[[1, 2, 3], [4, 5, 6]]]) 3)
       = end_ratio (process_all FadeIn_init [[[1, 2, 3], [4, 5, 6]]])"
proof -
  let ?f = "process_all FadeIn_init [[[1, 2, 3], [4, 5, 6]]]"
  have mem: "fade ?f 3 ! 1 \<in> set (fade ?f 3)"
    by (rule nth_mem) (simp add: fade_def linspace_length)
  note inst = FadeIn_ratio_monotone [of "[[[1, 2, 3], [4, 5, 6]]]" "[]" "[]" 3]
  from inst have "\<forall>x \<in> set (fade ?f 3). start_ratio ?f \<le> x \<and> x \<le> end_ratio ?f \<and> x \<le> 1"
    by blast
  with mem have b: "start_ratio ?f \<le> fade ?f 3 ! 1 \<and> fade ?f 3 ! 1 \<le> 1" by blast
  from inst have h: "hd (fade ?f 3) = start_ratio ?f" by simp
  from inst have l: "last (fade ?f 3) = end_ratio ?f" by simp
  from mem b h l show ?thesis by simp
qed

section \<open>Properties of the sample conversion\<close>

lemma le16_low: "ucast (le16 lo hi) = lo"
  unfolding le16_def by (rule bit_word_eqI) (auto simp: bit_simps)

lemma le16_high: "ucast (drop_bit 8 (le16 lo hi)) = hi"
  unfolding le16_def by (rule bit_word_eqI) (auto simp: bit_simps dest: bit_imp_le_length)

lemma py_int_of_int: "py_int (real_of_int k) = k"
  by (simp add: py_int_def)

lemma astype_int16_sint: "astype_int16 (real_of_int (sint w)) = w"
  unfolding astype_int16_def py_int_of_int by simp

lemma tobytes_int16s: "even (length d) \<Longrightarrow> tobytes (int16s d) = d"
  by (induction d rule: int16s.induct) (simp_all add: tobytes_def le16_low le16_high)

lemma length_int16s: "length (int16s d) = length d div 2"
  by (induction d rule: int16s.induct) simp_all

lemma length_slice2: "length (slice2 xs) = (length xs + 1) div 2"
  by (induction xs rule: slice2.induct) simp_all

lemma slice2_Cons: "slice2 (y # zs) = y # slice2 (drop 1 zs)"
  by (cases zs) simp_all

lemma interleave_slice2:
  "even (length xs) \<Longrightarrow> interleave (slice2 xs) (slice2 (drop 1 xs)) = xs"
  by (induction xs rule: induct_list012) (simp_all add: slice2_Cons)

lemma interleave_map: "interleave (map f xs) (map f ys) = map f (interleave xs ys)"
  by (induction xs ys rule: interleave.induct) simp_all

lemma half_rows:
  assumes "(n::nat) mod 4 = 0"
  shows "even (n div 2)" and "(n div 2 + 1) div 2 = n div 4"
    and "(n div 2 - 1 + 1) div 2 = n div 4" and "even n"
proof -
  from assms obtain k where n: "n = 4 * k" by auto
  have h: "n div 2 = 2 * k" by (simp add: n)
  show "even (n div 2)" by (simp add: h)
  show "(n div 2 + 1) div 2 = n div 4" by (simp add: h n)
  show "(n div 2 - 1 + 1) div 2 = n div 4" by (cases k) (simp_all add: h n)
  show "even n" by (simp add: n)
qed

lemma odd_half:
  assumes "(n::nat) mod 4 \<noteq> 0" "n mod 2 = 0"
  shows "odd (n div 2)"
proof -
  from assms(2) obtain k where n: "n = 2 * k" by auto
  have "odd k" using assms(1) by (auto simp: n elim!: evenE)
  then show ?thesis by (simp add: n)
qed

lemma even_int16s: "length d mod 4 = 0 \<Longrightarrow> even (length (int16s d))"
  unfolding length_int16s by (rule half_rows)

lemma slices_same_length:
  "even (length xs) \<Longrightarrow> length (slice2 xs) = length (slice2 (drop 1 xs))"
  unfolding length_slice2 by simp

text \<open>What \<open>to_torch\<close> gives on a buffer whose length is a multiple of four bytes.\<close>

lemma to_torch_ok:
  assumes "length (data src) mod 4 = 0"
  shows "to_torch c src =
           (Inr [map (\<lambda>w. real_of_int (sint w)) (slice2 (int16s (data src))),
                 map (\<lambda>w. real_of_int (sint w)) (slice2 (drop 1 (int16s (data src))))],
            c\<lparr>clip_audio_format := Some (audio_format src)\<rparr>)"
proof -
  have two: "length (data src) mod 2 = 0" using half_rows(4) [OF assms] by simp
  have same: "length (slice2 (int16s (data src)))
                = length (slice2 (drop 1 (int16s (data src))))"
    by (rule slices_same_length) (rule even_int16s [OF assms])
  show ?thesis
    by (simp add: to_torch_def frombuffer_int16_def stack2_def Let_def two same)
qed

lemma to_torch_error:
  assumes "length (data src) mod 4 \<noteq> 0"
  shows "to_torch c src = (Inl ValueError, c\<lparr>clip_audio_format := Some (audio_format src)\<rparr>)"
proof (cases "length (data src) mod 2 = 0")
  case False
  then show ?thesis by (simp add: to_torch_def frombuffer_int16_def Let_def)
next
  case True
  have "odd (length (int16s (data src)))"
    unfolding length_int16s using assms True by (rule odd_half)
  then have "length (slice2 (int16s (data src)))
               \<noteq> length (slice2 (drop 1 (int16s (data src))))"
    unfolding length_slice2 by simp
  then show ?thesis
    using True by (simp add: to_torch_def frombuffer_int16_def stack2_def Let_def)
qed

lemma length_rows:
  assumes "length d mod 4 = 0"
  shows "length (slice2 (int16s d)) = length d div 4"
    and "length (slice2 (drop (Suc 0) (int16s d))) = length d div 4"
  unfolding length_slice2 length_int16s length_drop
  using half_rows(2,3) [OF assms] by simp_all

text \<open>Encoding the samples that came out of a byte string gives the byte string back.\<close>

lemma encode_decode:
  assumes "length d mod 4 = 0"
  shows "tobytes (map astype_int16
           (interleave (map (\<lambda>w. real_of_int (sint w)) (slice2 (int16s d)))
                       (map (\<lambda>w. real_of_int (sint w)) (slice2 (drop 1 (int16s d)))))) = d"
proof -
  have ev: "even (length (int16s d))" by (rule even_int16s [OF assms])
  have "map astype_int16
          (interleave (map (\<lambda>w. real_of_int (sint w)) (slice2 (int16s d)))
                      (map (\<lambda>w. real_of_int (sint w)) (slice2 (drop 1 (int16s d)))))
        = map (\<lambda>w. astype_int16 (real_of_int (sint w)))
            (interleave (slice2 (int16s d)) (slice2 (drop 1 (int16s d))))"
    unfolding interleave_map by (simp add: comp_def)
  also have "\<dots> = int16s d"
    unfolding astype_int16_sint interleave_slice2 [OF ev] by simp
  finally have enc: "map astype_int16
          (interleave (map (\<lambda>w. real_of_int (sint w)) (slice2 (int16s d)))
                      (map (\<lambda>w. real_of_int (sint w)) (slice2 (drop 1 (int16s d)))))
        = int16s d" .
  have "even (length d)" using assms by (rule half_rows)
  then show ?thesis unfolding enc by (rule tobytes_int16s)
qed

section \<open>Properties of the seek offset\<close>


lemma mask2: "(4294967294::int) = push_bit 1 (mask 31)"
  by (simp add: mask_eq_exp_minus_1 push_bit_eq_mult)


lemma and_mask2_mod: "((x::int) AND 4294967294) mod 2 = 0"
proof -
  have "take_bit 1 (x AND 4294967294) = 0"
    unfolding mask2 by (rule bit_eqI) (auto simp: bit_simps)
  then show ?thesis by (simp add: take_bit_eq_mod)
qed





lemma and_mask_nonneg: "0 \<le> (x::int) \<Longrightarrow> 0 \<le> x AND m"
  by simp

lemma bytes_per_sample_stereo16:
  "channels fmt = 2 \<Longrightarrow> sample_size fmt = 16 \<Longrightarrow> bytes_per_sample fmt = 4"
  by (simp add: bytes_per_sample_def)





section \<open>The claims about buffers\<close>

text \<open>
  C4.  For a buffer whose byte length is a multiple of four (whole 16-bit stereo frames)
  and whose format has a non-zero byte rate (no \<open>MemorySource\<close> exists otherwise),
  \<open>to_torch\<close> succeeds, and \<open>from_torch\<close> on its result, with no effect in between,
  builds a source with exactly the original bytes and the original format.
\<close>

theorem to_torch_from_torch_roundtrip:
  assumes "length (data src) mod 4 = 0"
    and "bytes_per_second (audio_format src) \<noteq> 0"
  shows "\<exists>t c' ms. to_torch c src = (Inr t, c') \<and> from_torch c' oid t = Inr ms
           \<and> data ms = data src \<and> audio_format ms = audio_format src \<and> ident ms = oid"
proof -
  let ?a = "map (\<lambda>w. real_of_int (sint w)) (slice2 (int16s (data src)))"
  let ?b = "map (\<lambda>w. real_of_int (sint w)) (slice2 (drop 1 (int16s (data src))))"
  let ?c = "c\<lparr>clip_audio_format := Some (audio_format src)\<rparr>"
  let ?ms = "source_of oid (data src) (audio_format src)"
  have t: "to_torch c src = (Inr [?a, ?b], ?c)" by (rule to_torch_ok [OF assms(1)])
  have len: "length ?a = length ?b" by (simp add: length_rows [OF assms(1)])
  have "from_torch ?c oid [?a, ?b]
          = MemorySource_init oid (tobytes (map astype_int16 (interleave ?a ?b))) (audio_format src)"
    using len by (simp add: from_torch_def Let_def)
  also have "\<dots> = MemorySource_init oid (data src) (audio_format src)"
    by (simp only: encode_decode [OF assms(1)])
  also have "\<dots> = Inr ?ms"
    using assms(2) by (simp add: MemorySource_init_def source_of_def)
  finally have f: "from_torch ?c oid [?a, ?b] = Inr ?ms" .
  have "data ?ms = data src \<and> audio_format ?ms = audio_format src \<and> ident ?ms = oid"
    by (simp add: source_of_def)
  with t f show ?thesis by blast
qed

text \<open>One stereo frame, the samples \<open>0x0201\<close> and \<open>0xFFFE\<close> (negative).\<close>

theorem to_torch_from_torch_roundtrip_witness:
  "length (data (source_of 0 [1, 2, 254, 255] stereo16)) mod 4 = 0
   \<and> bytes_per_second (audio_format (source_of 0 [1, 2, 254, 255] stereo16)) \<noteq> 0
   \<and> (\<exists>t c' ms. to_torch (Clip_init ''a'' ''intro'' [] 128 ''8A'')
                     (source_of 0 [1, 2, 254, 255] stereo16) = (Inr t, c')
          \<and> from_torch c' 1 t = Inr ms \<and> data ms = [1, 2, 254, 255])"
proof -
  have h1: "length (data (source_of 0 [1, 2, 254, 255] stereo16)) mod 4 = 0"
    by (simp add: source_of_def)
  have h2: "bytes_per_second (audio_format (source_of 0 [1, 2, 254, 255] stereo16)) \<noteq> 0"
    by (simp add: source_of_def stereo16_def bytes_per_second_def bytes_per_sample_def)
  from to_torch_from_torch_roundtrip
         [OF h1 h2, of "Clip_init ''a'' ''intro'' [] 128 ''8A''" 1]
  obtain t c' ms where
    p: "to_torch (Clip_init ''a'' ''intro'' [] 128 ''8A'')
          (source_of 0 [1, 2, 254, 255] stereo16) = (Inr t, c')"
       "from_torch c' 1 t = Inr ms"
       "data ms = data (source_of 0 [1, 2, 254, 255] stereo16)"
    by blast
  from p(3) have "data ms = [1, 2, 254, 255]" by (simp add: source_of_def)
  with p(1,2) h1 h2 show ?thesis by blast
qed

text \<open>
  C9 (as amended).  \<open>to_torch\<close> does not consult the format: whatever the channel count
  and the sample size say, it reads the bytes as 16-bit samples and splits them into
  exactly two arrays.  It succeeds exactly when the byte length is a multiple of four, and
  then each array has a quarter of the byte length as its length; for a 16-bit stereo
  format that is the buffer's sample count (bytes divided by \<open>bytes_per_sample\<close>).
  Otherwise it raises \<open>ValueError\<close>.
\<close>

theorem to_torch_two_arrays:
  "(length (data src) mod 4 = 0 \<longrightarrow>
      (\<exists>a b. fst (to_torch c src) = Inr [a, b]
         \<and> length a = length (data src) div 4 \<and> length b = length (data src) div 4))
   \<and> (length (data src) mod 4 \<noteq> 0 \<longrightarrow> fst (to_torch c src) = Inl ValueError)
   \<and> fst (to_torch c (src\<lparr>audio_format := fmt\<rparr>)) = fst (to_torch c src)
   \<and> (length (data src) mod 4 = 0 \<and> channels (audio_format src) = 2
        \<and> sample_size (audio_format src) = 16 \<longrightarrow>
      (\<exists>a b. fst (to_torch c src) = Inr [a, b]
         \<and> int (length a) = int (length (data src)) div bytes_per_sample (audio_format src)
         \<and> int (length b) = int (length (data src)) div bytes_per_sample (audio_format src)))"
proof -
  have ok: "\<exists>a b. fst (to_torch c src) = Inr [a, b]
              \<and> length a = length (data src) div 4 \<and> length b = length (data src) div 4"
    if "length (data src) mod 4 = 0"
    using that by (simp add: to_torch_ok length_rows)
  have err: "fst (to_torch c src) = Inl ValueError" if "length (data src) mod 4 \<noteq> 0"
    using that by (simp add: to_torch_error)
  have indep: "fst (to_torch c (src\<lparr>audio_format := fmt\<rparr>)) = fst (to_torch c src)"
    by (simp add: to_torch_def Let_def split: sum.splits)
  have st: "\<exists>a b. fst (to_torch c src) = Inr [a, b]
              \<and> int (length a) = int (length (data src)) div bytes_per_sample (audio_format src)
              \<and> int (length b) = int (length (data src)) div bytes_per_sample (audio_format src)"
    if "length (data src) mod 4 = 0" "channels (audio_format src) = 2"
       "sample_size (audio_format src) = 16"
  proof -
    have "bytes_per_sample (audio_format src) = 4"
      using that by (simp add: bytes_per_sample_stereo16)
    then show ?thesis using ok [OF that(1)] by (auto simp: zdiv_int)
  qed
  show ?thesis
  proof (intro conjI impI)
    assume "length (data src) mod 4 = 0"
    then show "\<exists>a b. fst (to_torch c src) = Inr [a, b]
        \<and> length a = length (data src) div 4 \<and> length b = length (data src) div 4"
      by (rule ok)
  next
    assume "length (data src) mod 4 \<noteq> 0"
    then show "fst (to_torch c src) = Inl ValueError" by (rule err)
  next
    show "fst (to_torch c (src\<lparr>audio_format := fmt\<rparr>)) = fst (to_torch c src)"
      by (rule indep)
  next
    assume "length (data src) mod 4 = 0 \<and> channels (audio_format src) = 2
        \<and> sample_size (audio_format src) = 16"
    then show "\<exists>a b. fst (to_torch c src) = Inr [a, b]
        \<and> int (length a) = int (length (data src)) div bytes_per_sample (audio_format src)
        \<and> int (length b) = int (length (data src)) div bytes_per_sample (audio_format src)"
      using st by simp
  qed
qed

text \<open>A stereo buffer of two frames, and a buffer of three bytes.\<close>

theorem to_torch_two_arrays_witness:
  "length (data (source_of 0 [1, 0, 2, 0, 3, 0, 4, 0] stereo16)) mod 4 = 0
   \<and> channels (audio_format (source_of 0 [1, 0, 2, 0, 3, 0, 4, 0] stereo16)) = 2
   \<and> sample_size (audio_format (source_of 0 [1, 0, 2, 0, 3, 0, 4, 0] stereo16)) = 16
   \<and> (\<exists>a b. fst (to_torch (Clip_init ''a'' ''intro'' [] 128 ''8A'')
                     (source_of 0 [1, 0, 2, 0, 3, 0, 4, 0] stereo16)) = Inr [a, b]
          \<and> length a = 2 \<and> length b = 2)
   \<and> length (data (source_of 0 [1, 0, 2] stereo16)) mod 4 \<noteq> 0
   \<and> fst (to_torch (Clip_init ''a'' ''intro'' [] 128 ''8A'') (source_of 0 [1, 0, 2] stereo16))
       = Inl ValueError"
proof -
  let ?c = "Clip_init ''a'' ''intro'' [] 128 ''8A''"
  let ?s = "source_of 0 [1, 0, 2, 0, 3, 0, 4, 0] stereo16"
  let ?e = "source_of 0 [1, 0, 2] stereo16"
  have h: "length (data ?s) mod 4 = 0" "channels (audio_format ?s) = 2"
    "sample_size (audio_format ?s) = 16" "length (data ?e) mod 4 \<noteq> 0"
    by (simp_all add: source_of_def stereo16_def)
  have "length (data ?s) div 4 = 2" by (simp add: source_of_def)
  with to_torch_two_arrays [of ?s ?c stereo16] h(1)
  have a: "\<exists>a b. fst (to_torch ?c ?s) = Inr [a, b] \<and> length a = 2 \<and> length b = 2"
    by metis
  from to_torch_two_arrays [of ?e ?c stereo16] h(4)
  have b: "fst (to_torch ?c ?e) = Inl ValueError" by blast
  from h a b show ?thesis by blast
qed

text \<open>
  C9 as stated fails on a mono buffer: the format says one channel and, with two bytes
  per sample, the four bytes are two samples; \<open>to_torch\<close> gives two arrays of one sample
  each.
\<close>

theorem to_torch_mono_counterexample:
  "fst (to_torch (Clip_init ''a'' ''intro'' [] 128 ''8A'') (source_of 0 [1, 0, 2, 0] mono16))
     = Inr [[1], [2]]
   \<and> channels (audio_format (source_of 0 [1, 0, 2, 0] mono16)) = 1
   \<and> int (length (data (source_of 0 [1, 0, 2, 0] mono16)))
        div bytes_per_sample (audio_format (source_of 0 [1, 0, 2, 0] mono16)) = 2"
  by (simp add: to_torch_def frombuffer_int16_def stack2_def le16_def source_of_def mono16_def
        bytes_per_sample_def Let_def)




section \<open>Properties of \<open>next_bar\<close>\<close>

lemma apply_effects_fields:
  "bars (snd (apply_effects c t)) = bars c"
  "bar (snd (apply_effects c t)) = bar c"
  "clip_audio_format (snd (apply_effects c t)) = clip_audio_format c"
  by (simp_all add: apply_effects_def Let_def split: list.splits prod.splits)

lemma apply_effects_effects:
  "effects (snd (apply_effects c t))
     = (case effects c of [] \<Rightarrow> []
        | e # es \<Rightarrow> if is_done (snd (process e t)) then es else snd (process e t) # es)"
  by (simp add: apply_effects_def Let_def split: list.splits prod.splits)

lemma apply_effects_tensor:
  "fst (apply_effects c t) = (case effects c of [] \<Rightarrow> t | e # es \<Rightarrow> fst (process e t))"
  by (simp add: apply_effects_def Let_def split: list.splits prod.splits)

lemma process_shape:
  assumes "length a = length b"
  shows "\<exists>a' b'. fst (process e [a, b]) = [a', b'] \<and> length a' = length a \<and> length b' = length a"
  using assms by (simp add: process_def Let_def size_last_def fade_def linspace_length)

lemma apply_effects_shape:
  assumes "length a = length b"
  shows "\<exists>a' b'. fst (apply_effects c [a, b]) = [a', b'] \<and> length a' = length b'"
proof (cases "effects c")
  case Nil
  then show ?thesis using assms by (simp add: apply_effects_tensor)
next
  case (Cons e es)
  from process_shape [OF assms, of e] obtain a' b' where
    "fst (process e [a, b]) = [a', b']" "length a' = length a" "length b' = length a"
    by blast
  then show ?thesis using Cons by (simp add: apply_effects_tensor)
qed

lemma from_torch_two_rows:
  assumes "length a = length b" "clip_audio_format c = Some fmt" "bytes_per_second fmt \<noteq> 0"
  shows "from_torch c oid [a, b]
           = Inr (source_of oid (tobytes (map astype_int16 (interleave a b))) fmt)"
  using assms by (simp add: from_torch_def MemorySource_init_def source_of_def Let_def)

lemma from_torch_zero_rate:
  assumes "length a = length b" "clip_audio_format c = Some fmt" "bytes_per_second fmt = 0"
  shows "from_torch c oid [a, b] = Inl ZeroDivisionError"
  using assms by (simp add: from_torch_def MemorySource_init_def Let_def)

text \<open>The three ways a call can go, by what it finds at the cursor.\<close>

lemma next_bar_no_bar:
  assumes "py_index (bars c) (bar c) = Inl e"
  shows "next_bar c fresh = (Inl e, c, fresh)"
  using assms by (simp add: next_bar_def)

lemma next_bar_bad_length:
  assumes "py_index (bars c) (bar c) = Inr src" "length (data src) mod 4 \<noteq> 0"
  shows "next_bar c fresh
           = (Inl ValueError, c\<lparr>clip_audio_format := Some (audio_format src)\<rparr>, fresh)"
  using assms by (simp add: next_bar_def to_torch_error)

lemma py_index_nonempty: "py_index xs i = Inr x \<Longrightarrow> xs \<noteq> []"
  by (auto simp: py_index_def Let_def split: if_splits)

lemma next_bar_processed:
  assumes src: "py_index (bars c) (bar c) = Inr src"
    and len: "length (data src) mod 4 = 0"
  shows "\<exists>t c1 t' c2.
           to_torch c src = (Inr t, c1)
           \<and> c1 = c\<lparr>clip_audio_format := Some (audio_format src)\<rparr>
           \<and> apply_effects c1 t = (t', c2)
           \<and> (bytes_per_second (audio_format src) = 0 \<longrightarrow>
                next_bar c fresh = (Inl ZeroDivisionError, c2, fresh))
           \<and> (bytes_per_second (audio_format src) \<noteq> 0 \<longrightarrow>
                (\<exists>ms. from_torch c2 fresh t' = Inr ms \<and> ident ms = fresh
                   \<and> audio_format ms = audio_format src
                   \<and> next_bar c fresh
                       = (Inr ms,
                          c2\<lparr>current_bar := Some ms,
                             bar := (bar c + 1) mod int (length (bars c))\<rparr>,
                          Suc fresh)))"
proof -
  let ?c1 = "c\<lparr>clip_audio_format := Some (audio_format src)\<rparr>"
  obtain a b where t: "to_torch c src = (Inr [a, b], ?c1)" and ab: "length a = length b"
    using to_torch_ok [OF len, of c] length_rows [OF len] by simp
  obtain t' c2 where ae: "apply_effects ?c1 [a, b] = (t', c2)" by (metis surj_pair)
  from apply_effects_shape [OF ab, of ?c1] obtain a' b' where
    t': "t' = [a', b']" and ab': "length a' = length b'" by (auto simp: ae)
  have fmt: "clip_audio_format c2 = Some (audio_format src)"
    using apply_effects_fields(3) [of ?c1 "[a, b]"] by (simp add: ae)
  have bs: "bars c2 = bars c" and br: "bar c2 = bar c"
    using apply_effects_fields(1,2) [of ?c1 "[a, b]"] by (simp_all add: ae)
  have ne: "length (bars c) \<noteq> 0"
    using py_index_nonempty [OF src] by simp
  have zero: "next_bar c fresh = (Inl ZeroDivisionError, c2, fresh)"
    if z: "bytes_per_second (audio_format src) = 0"
  proof -
    have "from_torch c2 fresh [a', b'] = Inl ZeroDivisionError"
      by (rule from_torch_zero_rate [OF ab' fmt z])
    then show ?thesis by (simp add: next_bar_def src t ae t')
  qed
  have good: "\<exists>ms. from_torch c2 fresh t' = Inr ms \<and> ident ms = fresh
                   \<and> audio_format ms = audio_format src
                   \<and> next_bar c fresh
                       = (Inr ms,
                          c2\<lparr>current_bar := Some ms,
                             bar := (bar c + 1) mod int (length (bars c))\<rparr>,
                          Suc fresh)"
    if nz: "bytes_per_second (audio_format src) \<noteq> 0"
  proof -
    let ?ms = "source_of fresh (tobytes (map astype_int16 (interleave a' b'))) (audio_format src)"
    have f: "from_torch c2 fresh [a', b'] = Inr ?ms"
      by (rule from_torch_two_rows [OF ab' fmt nz])
    have "next_bar c fresh
            = (Inr ?ms,
               c2\<lparr>current_bar := Some ?ms, bar := (bar c + 1) mod int (length (bars c))\<rparr>,
               Suc fresh)"
      using ne f by (simp add: next_bar_def src t ae t' Let_def bs br)
    moreover have "ident ?ms = fresh \<and> audio_format ?ms = audio_format src"
      by (simp add: source_of_def)
    ultimately show ?thesis using f t' by auto
  qed
  from t ae zero good show ?thesis by blast
qed

lemma to_torch_Inr_length:
  assumes "to_torch c src = (Inr t, c1)"
  shows "length (data src) mod 4 = 0"
proof (rule ccontr)
  assume "length (data src) mod 4 \<noteq> 0"
  from to_torch_error [OF this, of c] assms show False by simp
qed

text \<open>What a call does to the effect chain.\<close>

lemma next_bar_effects_processed:
  assumes nb: "next_bar c fresh = (r, c', fresh')"
    and src: "py_index (bars c) (bar c) = Inr src"
    and t: "to_torch c src = (Inr t, c1)"
  shows "effects c'
           = (case effects c of [] \<Rightarrow> []
              | e # es \<Rightarrow> if is_done (snd (process e t)) then es else snd (process e t) # es)"
proof -
  have len: "length (data src) mod 4 = 0" by (rule to_torch_Inr_length [OF t])
  from next_bar_processed [OF src len, of fresh] t obtain t' c2 where
    c1: "c1 = c\<lparr>clip_audio_format := Some (audio_format src)\<rparr>"
    and ae: "apply_effects c1 t = (t', c2)"
    and z: "bytes_per_second (audio_format src) = 0 \<longrightarrow>
              next_bar c fresh = (Inl ZeroDivisionError, c2, fresh)"
    and g: "bytes_per_second (audio_format src) \<noteq> 0 \<longrightarrow>
              (\<exists>ms. next_bar c fresh
                 = (Inr ms,
                    c2\<lparr>current_bar := Some ms, bar := (bar c + 1) mod int (length (bars c))\<rparr>,
                    Suc fresh))"
    by auto
  have "effects c' = effects c2"
    using z g nb by (cases "bytes_per_second (audio_format src) = 0") auto
  also have "effects c2 = effects (snd (apply_effects c1 t))" by (simp add: ae)
  also have "\<dots> = (case effects c1 of [] \<Rightarrow> []
              | e # es \<Rightarrow> if is_done (snd (process e t)) then es else snd (process e t) # es)"
    by (rule apply_effects_effects)
  finally show ?thesis by (simp add: c1)
qed

lemma next_bar_effects_untouched:
  assumes nb: "next_bar c fresh = (r, c', fresh')"
    and "(\<exists>e. py_index (bars c) (bar c) = Inl e)
         \<or> (\<exists>src. py_index (bars c) (bar c) = Inr src \<and> length (data src) mod 4 \<noteq> 0)"
  shows "effects c' = effects c"
  using assms(2)
proof (elim disjE exE conjE)
  fix e assume "py_index (bars c) (bar c) = Inl e"
  from next_bar_no_bar [OF this, of fresh] nb show ?thesis by simp
next
  fix src assume "py_index (bars c) (bar c) = Inr src" "length (data src) mod 4 \<noteq> 0"
  from next_bar_bad_length [OF this, of fresh] nb show ?thesis by auto
qed

lemma next_bar_effects_any:
  assumes nb: "next_bar c fresh = (r, c', fresh')"
  shows "effects c' = effects c
         \<or> effects c' = (case effects c of [] \<Rightarrow> []
              | e # es \<Rightarrow> if is_done (step e) then es else step e # es)"
proof (cases "py_index (bars c) (bar c)")
  case (Inl e)
  then show ?thesis using next_bar_effects_untouched [OF nb] by blast
next
  case (Inr src)
  show ?thesis
  proof (cases "length (data src) mod 4 = 0")
    case False
    then show ?thesis using Inr next_bar_effects_untouched [OF nb] by blast
  next
    case True
    from to_torch_ok [OF True, of c] obtain t c1 where "to_torch c src = (Inr t, c1)" by blast
    from next_bar_effects_processed [OF nb Inr this] show ?thesis
      by (simp add: snd_process split: list.splits)
  qed
qed

text \<open>A call that fails leaves the cursor and the bars alone.\<close>

lemma next_bar_cursor:
  assumes nb: "next_bar c fresh = (r, c', fresh')"
  shows "bars c' = bars c"
    and "(\<exists>e. r = Inl e) \<longrightarrow> bar c' = bar c \<and> fresh' = fresh"
    and "(\<exists>ms. r = Inr ms) \<longrightarrow> bar c' = (bar c + 1) mod int (length (bars c))
           \<and> bars c \<noteq> [] \<and> fresh' = Suc fresh"
proof -
  have "bars c' = bars c
    \<and> ((\<exists>e. r = Inl e) \<longrightarrow> bar c' = bar c \<and> fresh' = fresh)
    \<and> ((\<exists>ms. r = Inr ms) \<longrightarrow> bar c' = (bar c + 1) mod int (length (bars c))
           \<and> bars c \<noteq> [] \<and> fresh' = Suc fresh)"
  proof (cases "py_index (bars c) (bar c)")
    case (Inl e)
    from next_bar_no_bar [OF this, of fresh] nb show ?thesis by auto
  next
    case (Inr src)
    note ne = py_index_nonempty [OF Inr]
    show ?thesis
    proof (cases "length (data src) mod 4 = 0")
      case False
      from next_bar_bad_length [OF Inr this, of fresh] nb show ?thesis by auto
    next
      case True
      from next_bar_processed [OF Inr True, of fresh] obtain t c1 t' c2 where
        c1: "c1 = c\<lparr>clip_audio_format := Some (audio_format src)\<rparr>"
        and ae: "apply_effects c1 t = (t', c2)"
        and z: "bytes_per_second (audio_format src) = 0 \<longrightarrow>
              next_bar c fresh = (Inl ZeroDivisionError, c2, fresh)"
        and g: "bytes_per_second (audio_format src) \<noteq> 0 \<longrightarrow>
              (\<exists>ms. next_bar c fresh
                 = (Inr ms,
                    c2\<lparr>current_bar := Some ms, bar := (bar c + 1) mod int (length (bars c))\<rparr>,
                    Suc fresh))"
        by auto
      have f: "bars c2 = bars c" "bar c2 = bar c"
        using apply_effects_fields(1,2) [of c1 t] unfolding ae by (simp_all add: c1)
      show ?thesis
        using z g nb f ne by (cases "bytes_per_second (audio_format src) = 0") auto
    qed
  qed
  then show "bars c' = bars c"
    and "(\<exists>e. r = Inl e) \<longrightarrow> bar c' = bar c \<and> fresh' = fresh"
    and "(\<exists>ms. r = Inr ms) \<longrightarrow> bar c' = (bar c + 1) mod int (length (bars c))
           \<and> bars c \<noteq> [] \<and> fresh' = Suc fresh"
    by blast+
qed

lemma py_index_in_range:
  assumes "0 \<le> i" "i < int (length xs)"
  shows "py_index xs i = Inr (xs ! nat i)" and "xs ! nat i \<in> set xs"
  using assms by (simp_all add: py_index_def Let_def)

text \<open>A call on a well-formed bar returns a new buffer and moves the cursor on.\<close>

lemma next_bar_returns:
  assumes src: "py_index (bars c) (bar c) = Inr src"
    and len: "length (data src) mod 4 = 0"
    and nz: "bytes_per_second (audio_format src) \<noteq> 0"
  shows "\<exists>ms c'. next_bar c fresh = (Inr ms, c', Suc fresh) \<and> ident ms = fresh
           \<and> audio_format ms = audio_format src
           \<and> bars c' = bars c \<and> bar c' = (bar c + 1) mod int (length (bars c))
           \<and> effects c' = (case effects c of [] \<Rightarrow> []
                | e # es \<Rightarrow> if is_done (step e) then es else step e # es)
           \<and> (effects c = [] \<longrightarrow> data ms = data src)"
proof -
  from next_bar_processed [OF src len, of fresh] obtain t c1 t' c2 where
    t: "to_torch c src = (Inr t, c1)"
    and c1: "c1 = c\<lparr>clip_audio_format := Some (audio_format src)\<rparr>"
    and ae: "apply_effects c1 t = (t', c2)"
    and g: "bytes_per_second (audio_format src) \<noteq> 0 \<longrightarrow>
                (\<exists>ms. from_torch c2 fresh t' = Inr ms \<and> ident ms = fresh
                   \<and> audio_format ms = audio_format src
                   \<and> next_bar c fresh
                       = (Inr ms,
                          c2\<lparr>current_bar := Some ms,
                             bar := (bar c + 1) mod int (length (bars c))\<rparr>,
                          Suc fresh))"
    by blast
  from g nz obtain ms where
    ft: "from_torch c2 fresh t' = Inr ms"
    and ms: "ident ms = fresh" "audio_format ms = audio_format src"
    and nb: "next_bar c fresh
               = (Inr ms,
                  c2\<lparr>current_bar := Some ms, bar := (bar c + 1) mod int (length (bars c))\<rparr>,
                  Suc fresh)"
    by blast
  let ?c' = "c2\<lparr>current_bar := Some ms, bar := (bar c + 1) mod int (length (bars c))\<rparr>"
  have bs: "bars ?c' = bars c"
    using next_bar_cursor(1) [OF nb] .
  have br: "bar ?c' = (bar c + 1) mod int (length (bars c))" by simp
  have ef: "effects ?c' = (case effects c of [] \<Rightarrow> []
                | e # es \<Rightarrow> if is_done (step e) then es else step e # es)"
    using next_bar_effects_processed [OF nb src t] by (simp add: snd_process split: list.splits)
  have un: "effects c = [] \<longrightarrow> data ms = data src"
  proof
    assume e: "effects c = []"
    let ?a = "map (\<lambda>w. real_of_int (sint w)) (slice2 (int16s (data src)))"
    let ?b = "map (\<lambda>w. real_of_int (sint w)) (slice2 (drop 1 (int16s (data src))))"
    have "effects c1 = []" by (simp add: c1 e)
    then have t': "t' = t" using apply_effects_tensor [of c1 t] unfolding ae by simp
    have fmt: "clip_audio_format c2 = Some (audio_format src)"
      using apply_effects_fields(3) [of c1 t] unfolding ae by (simp add: c1)
    have tt: "t = [?a, ?b]" using to_torch_ok [OF len, of c] t by simp
    have ab: "length ?a = length ?b" by (simp add: length_rows [OF len])
    have "from_torch c2 fresh [?a, ?b]
            = Inr (source_of fresh (tobytes (map astype_int16 (interleave ?a ?b)))
                     (audio_format src))"
      by (rule from_torch_two_rows [OF ab fmt nz])
    then have "from_torch c2 fresh t = Inr (source_of fresh (data src) (audio_format src))"
      unfolding tt by (simp only: encode_decode [OF len])
    with ft have "ms = source_of fresh (data src) (audio_format src)" by (simp add: t')
    then show "data ms = data src" by (simp add: source_of_def)
  qed
  show ?thesis
  proof (intro exI conjI)
    show "next_bar c fresh = (Inr ms, ?c', Suc fresh)" by (rule nb)
    show "ident ms = fresh" by (rule ms)
    show "audio_format ms = audio_format src" by (rule ms)
    show "bars ?c' = bars c" by (rule bs)
    show "bar ?c' = (bar c + 1) mod int (length (bars c))" by (rule br)
    show "effects ?c' = (case effects c of [] \<Rightarrow> []
                | e # es \<Rightarrow> if is_done (step e) then es else step e # es)" by (rule ef)
    show "effects c = [] \<longrightarrow> data ms = data src" by (rule un)
  qed
qed

lemma next_bar_well_formed:
  assumes nb: "next_bar c fresh = (r, c', fresh')"
    and rng: "0 \<le> bar c" "bar c < int (length (bars c))"
    and wf: "\<forall>b \<in> set (bars c). length (data b) mod 4 = 0
               \<and> bytes_per_second (audio_format b) \<noteq> 0"
  shows "\<exists>ms. r = Inr ms \<and> ident ms = fresh
           \<and> audio_format ms = audio_format (bars c ! nat (bar c))
           \<and> (effects c = [] \<longrightarrow> data ms = data (bars c ! nat (bar c)))"
    and "fresh' = Suc fresh"
    and "bars c' = bars c"
    and "bar c' = (bar c + 1) mod int (length (bars c))"
    and "0 \<le> bar c' \<and> bar c' < int (length (bars c'))"
    and "effects c' = (case effects c of [] \<Rightarrow> []
           | e # es \<Rightarrow> if is_done (step e) then es else step e # es)"
proof -
  let ?src = "bars c ! nat (bar c)"
  have src: "py_index (bars c) (bar c) = Inr ?src" and mem: "?src \<in> set (bars c)"
    using py_index_in_range [OF rng] by simp_all
  from wf mem have len: "length (data ?src) mod 4 = 0"
    and nz: "bytes_per_second (audio_format ?src) \<noteq> 0" by blast+
  from next_bar_returns [OF src len nz, of fresh] nb obtain ms where
    r: "r = Inr ms" and f: "fresh' = Suc fresh" and i: "ident ms = fresh"
    and af: "audio_format ms = audio_format ?src"
    and bs: "bars c' = bars c"
    and br: "bar c' = (bar c + 1) mod int (length (bars c))"
    and ef: "effects c' = (case effects c of [] \<Rightarrow> []
           | e # es \<Rightarrow> if is_done (step e) then es else step e # es)"
    and un: "effects c = [] \<longrightarrow> data ms = data ?src"
    by auto
  have pos: "0 < int (length (bars c))" using rng by linarith
  show "\<exists>ms. r = Inr ms \<and> ident ms = fresh
           \<and> audio_format ms = audio_format (bars c ! nat (bar c))
           \<and> (effects c = [] \<longrightarrow> data ms = data (bars c ! nat (bar c)))"
    using r i af un by blast
  show "fresh' = Suc fresh" by (rule f)
  show "bars c' = bars c" by (rule bs)
  show "bar c' = (bar c + 1) mod int (length (bars c))" by (rule br)
  show "0 \<le> bar c' \<and> bar c' < int (length (bars c'))"
    unfolding br bs using pos by simp
  show "effects c' = (case effects c of [] \<Rightarrow> []
           | e # es \<Rightarrow> if is_done (step e) then es else step e # es)" by (rule ef)
qed

text \<open>A call that returns a buffer has built it from the bar under the cursor.\<close>

lemma next_bar_reads_cursor:
  assumes nb: "next_bar c fresh = (Inr ms, c', fresh')"
  shows "\<exists>src t c1 t' c2. py_index (bars c) (bar c) = Inr src
           \<and> to_torch c src = (Inr t, c1) \<and> apply_effects c1 t = (t', c2)
           \<and> from_torch c2 fresh t' = Inr ms"
proof (cases "py_index (bars c) (bar c)")
  case (Inl e)
  from next_bar_no_bar [OF this, of fresh] nb show ?thesis by simp
next
  case (Inr src)
  show ?thesis
  proof (cases "length (data src) mod 4 = 0")
    case False
    from next_bar_bad_length [OF Inr this, of fresh] nb show ?thesis by simp
  next
    case True
    from next_bar_processed [OF Inr True, of fresh] obtain t c1 t' c2 where
      t: "to_torch c src = (Inr t, c1)"
      and ae: "apply_effects c1 t = (t', c2)"
      and z: "bytes_per_second (audio_format src) = 0 \<longrightarrow>
                next_bar c fresh = (Inl ZeroDivisionError, c2, fresh)"
      and g: "bytes_per_second (audio_format src) \<noteq> 0 \<longrightarrow>
                (\<exists>m. from_torch c2 fresh t' = Inr m
                   \<and> next_bar c fresh
                       = (Inr m,
                          c2\<lparr>current_bar := Some m,
                             bar := (bar c + 1) mod int (length (bars c))\<rparr>,
                          Suc fresh))"
      by blast
    have nz: "bytes_per_second (audio_format src) \<noteq> 0"
    proof
      assume "bytes_per_second (audio_format src) = 0"
      with z nb show False by simp
    qed
    with g obtain m where "from_torch c2 fresh t' = Inr m"
      and "next_bar c fresh
             = (Inr m,
                c2\<lparr>current_bar := Some m, bar := (bar c + 1) mod int (length (bars c))\<rparr>,
                Suc fresh)"
      by blast
    with nb have "from_torch c2 fresh t' = Inr ms" by simp
    with Inr t ae show ?thesis by blast
  qed
qed

lemma Clip_init_fields:
  "bars (Clip_init nm el bs tempo ky) = bs"
  "bar (Clip_init nm el bs tempo ky) = 0"
  "effects (Clip_init nm el bs tempo ky) = [FadeIn_init]"
  "state (Clip_init nm el bs tempo ky) = ''cued''"
  "magnitude (Clip_init nm el bs tempo ky) = 1"
  by (simp_all add: Clip_init_def)

lemma fade_states_not_done:
  "\<not> is_done FadeIn_init"
  "\<not> is_done \<lparr>gain = - 20, increment = 10\<rparr>"
  "\<not> is_done \<lparr>gain = - 10, increment = 10\<rparr>"
  "is_done \<lparr>gain = 0, increment = 10\<rparr>"
  by (simp_all add: is_done_def FadeIn_init_def)

lemma example_bars:
  "length (data bar_a) mod 4 = 0" "bytes_per_second (audio_format bar_a) \<noteq> 0"
  "length (data bar_b) mod 4 = 0" "bytes_per_second (audio_format bar_b) \<noteq> 0"
  "data bar_a = [1, 2, 3, 4]" "data bar_b = [5, 6, 7, 8]"
  by (simp_all add: bar_a_def bar_b_def source_of_def stereo16_def bytes_per_second_def
        bytes_per_sample_def)

lemma example_clip:
  "bars two_bar_clip = [bar_a, bar_b]" "bar two_bar_clip = 0"
  "effects two_bar_clip = [FadeIn_init]"
  by (simp_all add: two_bar_clip_def Clip_init_fields)

lemma example_to_torch:
  "to_torch c bar_a = (Inr [[513], [1027]], c\<lparr>clip_audio_format := Some stereo16\<rparr>)"
  by (simp add: to_torch_def frombuffer_int16_def stack2_def le16_def bar_a_def source_of_def
        Let_def)

section \<open>The claims about \<open>next_bar\<close>\<close>

text \<open>
  C2.  Let a call of \<open>next_bar\<close> start with the chain \<open>e # es\<close>.  If the call gets as far
  as \<open>process\<close> (the cursor names a bar and \<open>to_torch\<close> gives the tensor \<open>t\<close>), the head
  is gone after the call exactly when \<open>is_done\<close> holds of the head right after
  \<open>process\<close>, and otherwise the chain is the advanced head followed by \<open>es\<close>.  If the
  call raises before \<open>process\<close>, the chain is as it was.  With an empty chain the chain
  stays empty and a well-formed bar comes back with its bytes and format unchanged.
\<close>

theorem next_bar_pops_done_head:
  assumes "next_bar c fresh = (r, c', fresh')"
  shows "(effects c = e # es \<and> py_index (bars c) (bar c) = Inr src
            \<and> to_torch c src = (Inr t, c1) \<longrightarrow>
            (effects c' = es \<longleftrightarrow> is_done (snd (process e t)))
            \<and> (\<not> is_done (snd (process e t)) \<longrightarrow> effects c' = snd (process e t) # es))
       \<and> (effects c = e # es
            \<and> ((\<exists>err. py_index (bars c) (bar c) = Inl err)
                \<or> (\<exists>s. py_index (bars c) (bar c) = Inr s \<and> length (data s) mod 4 \<noteq> 0)) \<longrightarrow>
            effects c' = e # es)
       \<and> (effects c = [] \<longrightarrow> effects c' = [])
       \<and> (effects c = [] \<and> py_index (bars c) (bar c) = Inr src
            \<and> length (data src) mod 4 = 0 \<and> bytes_per_second (audio_format src) \<noteq> 0 \<longrightarrow>
            (\<exists>ms. r = Inr ms \<and> data ms = data src \<and> audio_format ms = audio_format src))"
proof (intro conjI impI)
  assume a: "effects c = e # es \<and> py_index (bars c) (bar c) = Inr src
            \<and> to_torch c src = (Inr t, c1)"
  then have ef: "effects c' = (if is_done (snd (process e t)) then es else snd (process e t) # es)"
    using next_bar_effects_processed [OF assms, of src t c1] by simp
  show "effects c' = es \<longleftrightarrow> is_done (snd (process e t))" by (simp add: ef)
  show "effects c' = snd (process e t) # es" if "\<not> is_done (snd (process e t))"
    using that by (simp add: ef)
next
  assume "effects c = e # es
            \<and> ((\<exists>err. py_index (bars c) (bar c) = Inl err)
                \<or> (\<exists>s. py_index (bars c) (bar c) = Inr s \<and> length (data s) mod 4 \<noteq> 0))"
  then show "effects c' = e # es"
    using next_bar_effects_untouched [OF assms] by simp
next
  assume "effects c = []"
  then show "effects c' = []" using next_bar_effects_any [OF assms] by auto
next
  assume a: "effects c = [] \<and> py_index (bars c) (bar c) = Inr src
            \<and> length (data src) mod 4 = 0 \<and> bytes_per_second (audio_format src) \<noteq> 0"
  then obtain ms c2 where "next_bar c fresh = (Inr ms, c2, Suc fresh)"
    "audio_format ms = audio_format src" "data ms = data src"
    using next_bar_returns [of c src fresh] by auto
  with assms show "\<exists>ms. r = Inr ms \<and> data ms = data src \<and> audio_format ms = audio_format src"
    by auto
qed

text \<open>
  The first call on the example clip: the fade-in is applied, is not done after it, and
  stays at the head; with the chain cleared, the bar comes back unmodified.
\<close>

theorem next_bar_pops_done_head_witness:
  "effects two_bar_clip = FadeIn_init # []
   \<and> py_index (bars two_bar_clip) (bar two_bar_clip) = Inr bar_a
   \<and> to_torch two_bar_clip bar_a
       = (Inr [[513], [1027]], two_bar_clip\<lparr>clip_audio_format := Some stereo16\<rparr>)
   \<and> \<not> is_done (snd (process FadeIn_init [[513], [1027]]))
   \<and> effects (fst (snd (next_bar two_bar_clip 2))) = [snd (process FadeIn_init [[513], [1027]])]
   \<and> effects (two_bar_clip\<lparr>effects := []\<rparr>) = []
   \<and> length (data bar_a) mod 4 = 0 \<and> bytes_per_second (audio_format bar_a) \<noteq> 0
   \<and> (\<exists>ms. fst (next_bar (two_bar_clip\<lparr>effects := []\<rparr>) 2) = Inr ms
          \<and> data ms = [1, 2, 3, 4])"
proof -
  obtain r c' f' where nb: "next_bar two_bar_clip 2 = (r, c', f')" by (metis prod_cases3)
  obtain r0 c0 f0 where nb0: "next_bar (two_bar_clip\<lparr>effects := []\<rparr>) 2 = (r0, c0, f0)"
    by (metis prod_cases3)
  have ix: "py_index (bars two_bar_clip) (bar two_bar_clip) = Inr bar_a"
    by (simp add: example_clip py_index_def)
  have nd: "\<not> is_done (snd (process FadeIn_init [[513], [1027]]))"
    by (simp add: snd_process step_init is_done_def)
  note first = next_bar_pops_done_head
    [OF nb, of FadeIn_init "[]" bar_a "[[513], [1027]]"
       "two_bar_clip\<lparr>clip_audio_format := Some stereo16\<rparr>"]
  from first ix nd have e1: "effects c' = [snd (process FadeIn_init [[513], [1027]])]"
    by (simp add: example_clip example_to_torch)
  note second = next_bar_pops_done_head
    [OF nb0, of FadeIn_init "[]" bar_a "[[513], [1027]]"
       "two_bar_clip\<lparr>clip_audio_format := Some stereo16\<rparr>"]
  from second ix have r0: "\<exists>ms. r0 = Inr ms \<and> data ms = [1, 2, 3, 4]"
    by (auto simp: example_clip example_bars)
  have c: "effects (fst (snd (next_bar two_bar_clip 2)))
             = [snd (process FadeIn_init [[513], [1027]])]"
    using e1 by (simp add: nb)
  have u: "\<exists>ms. fst (next_bar (two_bar_clip\<lparr>effects := []\<rparr>) 2) = Inr ms
             \<and> data ms = [1, 2, 3, 4]"
    using r0 by (simp add: nb0)
  from c u ix nd show ?thesis
    by (simp add: example_clip example_bars example_to_torch)
qed

text \<open>
  C3.  A new clip over a non-empty bars list has its cursor in range.  For a clip with a
  non-empty bars list and the cursor in range, a call of \<open>next_bar\<close> leaves the bars
  alone and the cursor in range: a call that returns a buffer has built it from
  \<open>bars[cursor]\<close> and sets the cursor to \<open>(cursor + 1) mod len(bars)\<close>, a call that
  raises does not move the cursor.  For a new clip over two well-formed bars,
  two calls return two buffers that are different objects, the cursor goes from 0 to 1
  and back to 0, and after both calls the chain still holds the fade-in, at \<open>-10\<close> dB and
  not done.
\<close>

theorem next_bar_cursor_cycles:
  assumes "next_bar c fresh = (r, c', fresh')"
    and "next_bar (Clip_init nm el [b0, b1] tempo ky) g = (r1, c1, g1)"
    and "next_bar c1 g1 = (r2, c2, g2)"
  shows "(bars c \<noteq> [] \<and> 0 \<le> bar c \<and> bar c < int (length (bars c)) \<longrightarrow>
            bars c' = bars c \<and> 0 \<le> bar c' \<and> bar c' < int (length (bars c'))
            \<and> ((\<exists>e. r = Inl e) \<longrightarrow> bar c' = bar c)
            \<and> (\<forall>ms. r = Inr ms \<longrightarrow>
                  bar c' = (bar c + 1) mod int (length (bars c))
                  \<and> (\<exists>t ca t' cb. to_torch c (bars c ! nat (bar c)) = (Inr t, ca)
                        \<and> apply_effects ca t = (t', cb)
                        \<and> from_torch cb fresh t' = Inr ms)))
       \<and> (length (data b0) mod 4 = 0 \<and> bytes_per_second (audio_format b0) \<noteq> 0
            \<and> length (data b1) mod 4 = 0 \<and> bytes_per_second (audio_format b1) \<noteq> 0 \<longrightarrow>
            (\<exists>m1 m2. r1 = Inr m1 \<and> r2 = Inr m2 \<and> ident m1 \<noteq> ident m2)
            \<and> bar (Clip_init nm el [b0, b1] tempo ky) = 0 \<and> bar c1 = 1 \<and> bar c2 = 0
            \<and> effects c2 = [\<lparr>gain = - 10, increment = 10\<rparr>]
            \<and> \<not> is_done \<lparr>gain = - 10, increment = 10\<rparr>)
       \<and> (bs \<noteq> [] \<longrightarrow>
            0 \<le> bar (Clip_init nm el bs tempo ky)
            \<and> bar (Clip_init nm el bs tempo ky)
                < int (length (bars (Clip_init nm el bs tempo ky))))"
proof (intro conjI)
  show "bars c \<noteq> [] \<and> 0 \<le> bar c \<and> bar c < int (length (bars c)) \<longrightarrow>
            bars c' = bars c \<and> 0 \<le> bar c' \<and> bar c' < int (length (bars c'))
            \<and> ((\<exists>e. r = Inl e) \<longrightarrow> bar c' = bar c)
            \<and> (\<forall>ms. r = Inr ms \<longrightarrow>
                  bar c' = (bar c + 1) mod int (length (bars c))
                  \<and> (\<exists>t ca t' cb. to_torch c (bars c ! nat (bar c)) = (Inr t, ca)
                        \<and> apply_effects ca t = (t', cb)
                        \<and> from_torch cb fresh t' = Inr ms))"
  proof
    assume a: "bars c \<noteq> [] \<and> 0 \<le> bar c \<and> bar c < int (length (bars c))"
    note cur = next_bar_cursor [OF assms(1)]
    have bs: "bars c' = bars c" by (rule cur(1))
    have pos: "0 < int (length (bars c))" using a by simp
    have rng: "0 \<le> bar c' \<and> bar c' < int (length (bars c'))"
    proof (cases r)
      case (Inl e)
      then show ?thesis using cur(2) a bs by simp
    next
      case (Inr ms)
      then have "bar c' = (bar c + 1) mod int (length (bars c))" using cur(3) by simp
      then show ?thesis using pos bs by simp
    qed
    have ret: "bar c' = (bar c + 1) mod int (length (bars c))
        \<and> (\<exists>t ca t' cb. to_torch c (bars c ! nat (bar c)) = (Inr t, ca)
              \<and> apply_effects ca t = (t', cb) \<and> from_torch cb fresh t' = Inr ms)"
      if r: "r = Inr ms" for ms
    proof -
      have ix: "py_index (bars c) (bar c) = Inr (bars c ! nat (bar c))"
        using a by (simp add: py_index_in_range)
      from next_bar_reads_cursor [of c fresh ms c' fresh'] assms(1) r ix
      have "\<exists>t ca t' cb. to_torch c (bars c ! nat (bar c)) = (Inr t, ca)
              \<and> apply_effects ca t = (t', cb) \<and> from_torch cb fresh t' = Inr ms"
        by auto
      then show ?thesis using cur(3) r by simp
    qed
    from bs rng cur(2) ret
    show "bars c' = bars c \<and> 0 \<le> bar c' \<and> bar c' < int (length (bars c'))
            \<and> ((\<exists>e. r = Inl e) \<longrightarrow> bar c' = bar c)
            \<and> (\<forall>ms. r = Inr ms \<longrightarrow>
                  bar c' = (bar c + 1) mod int (length (bars c))
                  \<and> (\<exists>t ca t' cb. to_torch c (bars c ! nat (bar c)) = (Inr t, ca)
                        \<and> apply_effects ca t = (t', cb)
                        \<and> from_torch cb fresh t' = Inr ms))"
      by blast
  qed
next
  let ?c0 = "Clip_init nm el [b0, b1] tempo ky"
  show "length (data b0) mod 4 = 0 \<and> bytes_per_second (audio_format b0) \<noteq> 0
            \<and> length (data b1) mod 4 = 0 \<and> bytes_per_second (audio_format b1) \<noteq> 0 \<longrightarrow>
            (\<exists>m1 m2. r1 = Inr m1 \<and> r2 = Inr m2 \<and> ident m1 \<noteq> ident m2)
            \<and> bar ?c0 = 0 \<and> bar c1 = 1 \<and> bar c2 = 0
            \<and> effects c2 = [\<lparr>gain = - 10, increment = 10\<rparr>]
            \<and> \<not> is_done \<lparr>gain = - 10, increment = 10\<rparr>"
  proof
    assume wf: "length (data b0) mod 4 = 0 \<and> bytes_per_second (audio_format b0) \<noteq> 0
            \<and> length (data b1) mod 4 = 0 \<and> bytes_per_second (audio_format b1) \<noteq> 0"
    have wf0: "\<forall>b \<in> set (bars ?c0). length (data b) mod 4 = 0
                 \<and> bytes_per_second (audio_format b) \<noteq> 0"
      using wf by (simp add: Clip_init_fields)
    have rng0: "0 \<le> bar ?c0" "bar ?c0 < int (length (bars ?c0))"
      by (simp_all add: Clip_init_fields)
    note s1 = next_bar_well_formed [OF assms(2) rng0 wf0]
    have bs1: "bars c1 = [b0, b1]" using s1(3) by (simp add: Clip_init_fields)
    have br1: "bar c1 = 1" using s1(4) by (simp add: Clip_init_fields)
    have ef1: "effects c1 = [\<lparr>gain = - 20, increment = 10\<rparr>]"
      using s1(6) by (simp add: Clip_init_fields step_init fade_states_not_done)
    have wf1: "\<forall>b \<in> set (bars c1). length (data b) mod 4 = 0
                 \<and> bytes_per_second (audio_format b) \<noteq> 0"
      using wf by (simp add: bs1)
    have rng1: "0 \<le> bar c1" "bar c1 < int (length (bars c1))"
      by (simp_all add: bs1 br1)
    note s2 = next_bar_well_formed [OF assms(3) rng1 wf1]
    have br2: "bar c2 = 0" using s2(4) by (simp add: bs1 br1)
    have ef2: "effects c2 = [\<lparr>gain = - 10, increment = 10\<rparr>]"
      using s2(6) by (simp add: ef1 step_m20 fade_states_not_done)
    from s1(1) obtain m1 where m1: "r1 = Inr m1" "ident m1 = g" by blast
    from s2(1) obtain m2 where m2: "r2 = Inr m2" "ident m2 = g1" by blast
    have "ident m1 \<noteq> ident m2" using m1 m2 s1(2) by simp
    with m1 m2 have "\<exists>m1 m2. r1 = Inr m1 \<and> r2 = Inr m2 \<and> ident m1 \<noteq> ident m2" by blast
    then show "(\<exists>m1 m2. r1 = Inr m1 \<and> r2 = Inr m2 \<and> ident m1 \<noteq> ident m2)
            \<and> bar ?c0 = 0 \<and> bar c1 = 1 \<and> bar c2 = 0
            \<and> effects c2 = [\<lparr>gain = - 10, increment = 10\<rparr>]
            \<and> \<not> is_done \<lparr>gain = - 10, increment = 10\<rparr>"
      using br1 br2 ef2 by (simp add: Clip_init_fields fade_states_not_done)
  qed
next
  show "bs \<noteq> [] \<longrightarrow>
            0 \<le> bar (Clip_init nm el bs tempo ky)
            \<and> bar (Clip_init nm el bs tempo ky)
                < int (length (bars (Clip_init nm el bs tempo ky)))"
    by (simp add: Clip_init_fields)
qed

text \<open>The example clip: two calls, two different objects, the cursor back at 0.\<close>

theorem next_bar_cursor_cycles_witness:
  "bars two_bar_clip \<noteq> [] \<and> 0 \<le> bar two_bar_clip
   \<and> bar two_bar_clip < int (length (bars two_bar_clip))
   \<and> length (data bar_a) mod 4 = 0 \<and> bytes_per_second (audio_format bar_a) \<noteq> 0
   \<and> length (data bar_b) mod 4 = 0 \<and> bytes_per_second (audio_format bar_b) \<noteq> 0
   \<and> (\<exists>m1 m2. fst (next_bar two_bar_clip 2) = Inr m1
          \<and> fst (next_bar (fst (snd (next_bar two_bar_clip 2)))
                   (snd (snd (next_bar two_bar_clip 2)))) = Inr m2
          \<and> ident m1 \<noteq> ident m2)
   \<and> bar (fst (snd (next_bar two_bar_clip 2))) = (0 + 1) mod 2
   \<and> bar (fst (snd (next_bar (fst (snd (next_bar two_bar_clip 2)))
                       (snd (snd (next_bar two_bar_clip 2)))))) = 0"
proof -
  obtain r1 c1 g1 where nb1: "next_bar two_bar_clip 2 = (r1, c1, g1)" by (metis prod_cases3)
  obtain r2 c2 g2 where nb2: "next_bar c1 g1 = (r2, c2, g2)" by (metis prod_cases3)
  have nb1': "next_bar (Clip_init ''song'' ''intro'' [bar_a, bar_b] 128 ''8A'') 2 = (r1, c1, g1)"
    using nb1 by (simp add: two_bar_clip_def)
  note inst = next_bar_cursor_cycles [OF nb1 nb1' nb2, where bs = "[bar_a, bar_b]"]
  have rng: "bars two_bar_clip \<noteq> []" "0 \<le> bar two_bar_clip"
    "bar two_bar_clip < int (length (bars two_bar_clip))"
    by (simp_all add: example_clip)
  from inst example_bars(1-4)
  have scen: "(\<exists>m1 m2. r1 = Inr m1 \<and> r2 = Inr m2 \<and> ident m1 \<noteq> ident m2)
                \<and> bar c1 = 1 \<and> bar c2 = 0"
    by blast
  from inst rng scen have "bar c1 = (bar two_bar_clip + 1) mod int (length (bars two_bar_clip))"
    by blast
  then have b1: "bar c1 = (0 + 1) mod 2" by (simp add: example_clip)
  from rng example_bars(1-4) scen b1 show ?thesis by (simp add: nb1 nb2)
qed







section \<open>Properties of the bar slicer\<close>










section \<open>The claims about the bar slicer\<close>







end
